theory Spec2Isabelle
  imports Main
begin

section \<open>The two extension front-ends\<close>

text \<open>
  The repository holds two VSCode extension entry points,
  \<^verbatim>\<open>vscode-extension/src/extension.ts\<close> and \<^verbatim>\<open>rblx-react-lsp/src/extension.ts\<close>.
  Each exports \<^verbatim>\<open>activate\<close> and \<^verbatim>\<open>deactivate\<close> and keeps one module-level
  variable \<^verbatim>\<open>client\<close>. The functions of the two files carry the same names, so the
  model prefixes them with the package they belong to.
\<close>

subsection \<open>Values of the language-client library\<close>

text \<open>\<^verbatim>\<open>TransportKind\<close> of vscode-languageclient/node.\<close>

datatype TransportKind = stdio | ipc | pipe | socket

text \<open>The object literals \<^verbatim>\<open>{ command: ..., transport: ... }\<close>.\<close>

record Executable =
  command :: string
  transport :: TransportKind

record ServerOptions =
  run :: Executable
  debug :: Executable

text \<open>One entry of \<^verbatim>\<open>documentSelector\<close>.\<close>

record DocumentFilter =
  scheme :: string
  language :: string

text \<open>
  The handle that \<^verbatim>\<open>vscode.workspace.createFileSystemWatcher(glob)\<close> returns; it is
  identified by the glob pattern it watches.
\<close>

datatype FileSystemWatcher = Watcher string

text \<open>
  \<^verbatim>\<open>LanguageClientOptions\<close>: the field \<open>fileEvents\<close> is \<^verbatim>\<open>synchronize.fileEvents\<close>,
  the only member of \<^verbatim>\<open>synchronize\<close> that the source sets.
\<close>

record LanguageClientOptions =
  documentSelector :: "DocumentFilter list"
  fileEvents :: FileSystemWatcher

text \<open>
  A \<^verbatim>\<open>LanguageClient\<close> object, as the four constructor arguments
  \<^verbatim>\<open>new LanguageClient(id, name, serverOptions, clientOptions)\<close>.
\<close>

record LanguageClient =
  client_id :: string
  client_name :: string
  server_options :: ServerOptions
  client_options :: LanguageClientOptions

text \<open>
  The promises the library hands back: \<open>Started c\<close> is the value of \<^verbatim>\<open>c.start()\<close>,
  \<open>Stopped c\<close> the value of \<^verbatim>\<open>c.stop()\<close>.
\<close>

datatype Thenable = Started LanguageClient | Stopped LanguageClient

text \<open>How a promise settles.\<close>

datatype settlement = Fulfilled | Rejected string

subsection \<open>The host: context, path module, observable effects\<close>

text \<open>
  \<^verbatim>\<open>vscode.ExtensionContext\<close>, of which the source uses \<^verbatim>\<open>asAbsolutePath\<close> only, and
  Node's \<^verbatim>\<open>path\<close> module, of which it uses \<^verbatim>\<open>join\<close> only. Both are code of the host,
  so they are parameters of the model.
\<close>

record ExtensionContext =
  asAbsolutePath :: "string \<Rightarrow> string"

record PlatformPath =
  join :: "string list \<Rightarrow> string"

text \<open>
  Every call that leaves the module is recorded, oldest first, so that what a front-end
  does and in which order can be read off the state.
\<close>

datatype effect =
    CreateFileSystemWatcher string
  | ConsoleLog string
  | NewLanguageClient LanguageClient
  | Start LanguageClient
  | Stop LanguageClient

text \<open>
  The state of one loaded extension module: the module-level \<^verbatim>\<open>let client: LanguageClient\<close>
  (\<open>None\<close> while it is \<^verbatim>\<open>undefined\<close>) and the effects so far.
\<close>

record module_state =
  client :: "LanguageClient option"
  effects :: "effect list"

definition initial :: module_state where
  "initial = \<lparr>client = None, effects = []\<rparr>"

definition emit :: "effect \<Rightarrow> module_state \<Rightarrow> module_state" where
  "emit e s = s\<lparr>effects := effects s @ [e]\<rparr>"

definition createFileSystemWatcher :: "string \<Rightarrow> module_state \<Rightarrow> FileSystemWatcher \<times> module_state" where
  "createFileSystemWatcher glob s = (Watcher glob, emit (CreateFileSystemWatcher glob) s)"

definition console_log :: "string \<Rightarrow> module_state \<Rightarrow> module_state" where
  "console_log msg s = emit (ConsoleLog msg) s"

definition new_LanguageClient ::
  "string \<Rightarrow> string \<Rightarrow> ServerOptions \<Rightarrow> LanguageClientOptions \<Rightarrow> module_state
    \<Rightarrow> LanguageClient \<times> module_state" where
  "new_LanguageClient i n so co s =
     (let c = \<lparr>client_id = i, client_name = n, server_options = so, client_options = co\<rparr>
      in (c, emit (NewLanguageClient c) s))"

definition client_start :: "LanguageClient \<Rightarrow> module_state \<Rightarrow> Thenable \<times> module_state" where
  "client_start c s = (Started c, emit (Start c) s)"

definition client_stop :: "LanguageClient \<Rightarrow> module_state \<Rightarrow> Thenable \<times> module_state" where
  "client_stop c s = (Stopped c, emit (Stop c) s)"

subsection \<open>vscode-extension/src/extension.ts\<close>

definition vscode_extension_activate ::
  "PlatformPath \<Rightarrow> ExtensionContext \<Rightarrow> module_state \<Rightarrow> module_state" where
  "vscode_extension_activate path context s =
     (let serverPath = asAbsolutePath context
            (join path [''..'', ''lsp-server'', ''target'', ''debug'', ''React_lSP'']);
          serverOptions = \<lparr>run = \<lparr>command = serverPath, transport = stdio\<rparr>,
                           debug = \<lparr>command = serverPath, transport = stdio\<rparr>\<rparr>;
          (watcher, s1) = createFileSystemWatcher ''**/.clientrc'' s;
          clientOptions = \<lparr>documentSelector = [\<lparr>scheme = ''file'', language = ''.luau''\<rparr>],
                           fileEvents = watcher\<rparr>;
          (c, s2) = new_LanguageClient ''rblxReactLSP'' ''RBLX React LSP''
                      serverOptions clientOptions s1;
          s3 = s2\<lparr>client := Some c\<rparr>;
          (started, s4) = client_start c s3
      in s4)"

text \<open>
  The promise of \<^verbatim>\<open>client.start()\<close> is dropped: whichever way it settles, nothing of
  this module runs.
\<close>

definition vscode_extension_start_settled :: "settlement \<Rightarrow> module_state \<Rightarrow> module_state" where
  "vscode_extension_start_settled outcome s = s"

definition vscode_extension_deactivate :: "module_state \<Rightarrow> Thenable option \<times> module_state" where
  "vscode_extension_deactivate s =
     (case client s of
        None \<Rightarrow> (None, s)
      | Some c \<Rightarrow> (let (stopped, s') = client_stop c s in (Some stopped, s')))"

subsection \<open>rblx-react-lsp/src/extension.ts\<close>

definition ver :: string where
  "ver = ''V3''"

definition rblx_react_lsp_activate ::
  "PlatformPath \<Rightarrow> ExtensionContext \<Rightarrow> module_state \<Rightarrow> module_state" where
  "rblx_react_lsp_activate path context s =
     (let serverPath = asAbsolutePath context
            (join path [''..'', ''lsp-server'', ''target'', ''debug'', ''React_LSP.exe'']);
          serverOpts = \<lparr>run = \<lparr>command = serverPath, transport = stdio\<rparr>,
                        debug = \<lparr>command = serverPath, transport = stdio\<rparr>\<rparr>;
          (watcher, s1) = createFileSystemWatcher ''**/.clientrc'' s;
          clientOpts = \<lparr>documentSelector = [\<lparr>scheme = ''file'', language = ''lua''\<rparr>],
                        fileEvents = watcher\<rparr>;
          s2 = console_log (''Server '' @ ver @ '' starting...'') s1;
          (c, s3) = new_LanguageClient ''rblxReactLSP'' ''RBLX React LSP'' serverOpts clientOpts s2;
          s4 = s3\<lparr>client := Some c\<rparr>;
          (started, s5) = client_start c s4
      in s5)"

text \<open>
  \<^verbatim>\<open>client.start().then(() => console.log(...))\<close>: the callback is the fulfilment
  handler; no rejection handler is given.
\<close>

definition rblx_react_lsp_start_settled :: "settlement \<Rightarrow> module_state \<Rightarrow> module_state" where
  "rblx_react_lsp_start_settled outcome s =
     (case outcome of
        Fulfilled \<Rightarrow> console_log (''Server '' @ ver @ '' started!'') s
      | Rejected reason \<Rightarrow> s)"

definition rblx_react_lsp_deactivate :: "module_state \<Rightarrow> Thenable option \<times> module_state" where
  "rblx_react_lsp_deactivate s =
     (case client s of
        None \<Rightarrow> (None, s)
      | Some c \<Rightarrow> (let (stopped, s') = client_stop c s in (Some stopped, s')))"

text \<open>A concrete host for evaluation: POSIX \<^verbatim>\<open>path.join\<close> on segments that need no
  normalisation, and an extension installed under \<^verbatim>\<open>/ext\<close>.\<close>

fun posix_join :: "string list \<Rightarrow> string" where
  "posix_join [] = ''.''"
| "posix_join [x] = x"
| "posix_join (x # xs) = x @ ''/'' @ posix_join xs"

definition posix :: PlatformPath where
  "posix = \<lparr>join = posix_join\<rparr>"

definition ext_context :: ExtensionContext where
  "ext_context = \<lparr>asAbsolutePath = (\<lambda>p. ''/ext/'' @ p)\<rparr>"

text \<open>The client object that \<^verbatim>\<open>rblx-react-lsp\<close> builds on that host.\<close>

definition sample_client :: LanguageClient where
  "sample_client =
     \<lparr>client_id = ''rblxReactLSP'', client_name = ''RBLX React LSP'',
      server_options =
        \<lparr>run = \<lparr>command = ''/ext/../lsp-server/target/debug/React_LSP.exe'', transport = stdio\<rparr>,
         debug = \<lparr>command = ''/ext/../lsp-server/target/debug/React_LSP.exe'', transport = stdio\<rparr>\<rparr>,
      client_options =
        \<lparr>documentSelector = [\<lparr>scheme = ''file'', language = ''lua''\<rparr>],
         fileEvents = Watcher ''**/.clientrc''\<rparr>\<rparr>"


section \<open>The language server behind the front-ends\<close>

text \<open>
  Both front-ends launch the executable built from \<^verbatim>\<open>lsp-server/\<close>, a sibling
  directory of the two extension packages. Its code is not among the sources at hand; the
  definitions of this section follow the design the specification gives for it.
\<close>

subsection \<open>Protocol session\<close>

text \<open>Modelled from the spec: the states of the Protocol Session (section 4.5), part of
  the lsp-server code that is missing from the sources.\<close>

datatype session_state = Uninitialized | Initialized | ShuttingDown | Closed

text \<open>Modelled from the spec: the methods a client sends (section 6) to the missing
  lsp-server: the lifecycle methods \<^verbatim>\<open>initialize\<close>, \<^verbatim>\<open>initialized\<close>, \<^verbatim>\<open>shutdown\<close>,
  \<^verbatim>\<open>exit\<close>, the document notifications and the three queries.\<close>

datatype lsp_method =
    Initialize | InitializedNotification | Shutdown | Exit
  | DidOpen | DidChange | DidClose
  | Hover | Completion | Definition

text \<open>Modelled from the spec: the two state errors that section 4.5 names for the
  missing lsp-server session.\<close>

datatype state_error = ServerNotInitialized | InvalidState

text \<open>Modelled from the spec: what the missing lsp-server session answers to one message:
  the request is accepted, it fails with a state error, or, for a notification, there is no
  response at all (section 4.5: notifications never receive a response).\<close>

datatype reply = Accepted | Failed state_error | NoReply

text \<open>Modelled from the spec: which methods of the missing lsp-server are notifications.
  Section 4.5 speaks of \<^verbatim>\<open>shutdown\<close> and \<^verbatim>\<open>exit\<close> together as requests that are
  accepted, so \<^verbatim>\<open>exit\<close> is answered like a request here.\<close>

fun is_notification :: "lsp_method \<Rightarrow> bool" where
  "is_notification InitializedNotification = True"
| "is_notification DidOpen = True"
| "is_notification DidChange = True"
| "is_notification DidClose = True"
| "is_notification m = False"

text \<open>Modelled from the spec: the dispatch of the missing lsp-server session
  (section 4.5), one message at a time, giving the next state and the response.
  \<^item> A notification changes no session state and gets no response.
  \<^item> After \<open>Closed\<close> every request fails with \<open>InvalidState\<close>.
  \<^item> Before that, \<^verbatim>\<open>exit\<close> moves to \<open>Closed\<close> and \<^verbatim>\<open>shutdown\<close> to
    \<open>ShuttingDown\<close>, from every state.
  \<^item> While \<open>Uninitialized\<close>, \<^verbatim>\<open>initialize\<close> is accepted and leads to \<open>Initialized\<close>;
    any other request fails with \<open>ServerNotInitialized\<close>.
  \<^item> From \<open>Initialized\<close> the queries are accepted.
  The spec names no error for a second \<^verbatim>\<open>initialize\<close> or for a query while
  \<open>ShuttingDown\<close>; both are refused with \<open>InvalidState\<close>, the one error it has for a
  request that the current state does not admit.\<close>

fun handle :: "session_state \<Rightarrow> lsp_method \<Rightarrow> session_state \<times> reply" where
  "handle s m =
     (if is_notification m then (s, NoReply)
      else if s = Closed then (Closed, Failed InvalidState)
      else if m = Exit then (Closed, Accepted)
      else if m = Shutdown then (ShuttingDown, Accepted)
      else if s = Uninitialized then
        (if m = Initialize then (Initialized, Accepted)
         else (Uninitialized, Failed ServerNotInitialized))
      else if s = Initialized then
        (if m = Initialize then (Initialized, Failed InvalidState)
         else (Initialized, Accepted))
      else (ShuttingDown, Failed InvalidState))"

text \<open>Modelled from the spec: one handled message of the missing lsp-server session, as
  the state before, the message, the response and the state after.\<close>

record step =
  before :: session_state
  message :: lsp_method
  response :: reply
  after :: session_state

text \<open>Modelled from the spec: the missing lsp-server session handles its incoming
  messages in arrival order, each from the state the previous one left.\<close>

fun steps :: "session_state \<Rightarrow> lsp_method list \<Rightarrow> step list" where
  "steps s [] = []"
| "steps s (m # ms) =
     (case handle s m of
        (s', r) \<Rightarrow> \<lparr>before = s, message = m, response = r, after = s'\<rparr> # steps s' ms)"

text \<open>Modelled from the spec: the position of a state in the chain
  \<open>Uninitialized \<rightarrow> Initialized \<rightarrow> ShuttingDown \<rightarrow> Closed\<close> of section 4.5 (session code
  missing from the sources).\<close>

fun rank :: "session_state \<Rightarrow> nat" where
  "rank Uninitialized = 0"
| "rank Initialized = 1"
| "rank ShuttingDown = 2"
| "rank Closed = 3"

text \<open>Modelled from the spec: a step of the missing lsp-server session in which an
  \<^verbatim>\<open>initialize\<close> request was accepted.\<close>

definition accepted_initialize :: "step \<Rightarrow> bool" where
  "accepted_initialize t = (message t = Initialize \<and> response t = Accepted)"

subsection \<open>Diagnostics\<close>

text \<open>Modelled from the spec: the severities of a Diagnostic (section 3), reported by
  lsp-server code that is missing from the sources.\<close>

datatype severity = Error | Warning | Info | Hint

text \<open>Modelled from the spec: the Diagnostic of section 3 (severity, span, message, source
  component tag), produced by lsp-server code that is missing from the sources.\<close>

record Diagnostic =
  severity :: severity
  diag_start :: nat
  diag_end :: nat
  message_text :: string
  source_tag :: string

subsection \<open>Incremental document store\<close>

text \<open>Modelled from the spec: the Edit of section 3, consumed by the missing document
  store: a range of the text buffer (byte offsets, end exclusive), its replacement, the
  version the edit was made against and the new version number it carries.\<close>

record Edit =
  range_start :: nat
  range_end :: nat
  new_text :: string
  base_version :: nat
  new_version :: nat

text \<open>Modelled from the spec: the Document of section 3, held by the missing document
  store. The tree and the symbol table are those of the absent parser and analyzer, so
  their types are parameters; \<open>pending\<close> is the mark that they await recomputation.\<close>

record ('t, 'y) Document =
  uri :: string
  version :: nat
  text_buffer :: string
  tree :: 't
  symbols :: 'y
  diagnostics :: "Diagnostic set"
  pending :: bool

text \<open>Modelled from the spec: the contracts of the missing Parser and Analyzer
  (sections 4.2 and 4.4), taken as parameters: a tree and diagnostics from a text, a
  symbol table and diagnostics from a tree.\<close>

record ('t, 'y) pipeline =
  parse :: "string \<Rightarrow> 't \<times> Diagnostic list"
  analyze :: "'t \<Rightarrow> 'y \<times> Diagnostic list"

text \<open>Modelled from the spec: the two failures of \<^verbatim>\<open>applyEdit\<close> in the missing document
  store (section 4.3).\<close>

datatype store_error = UnknownDocument | StaleVersion

text \<open>Modelled from the spec: the missing document store holds its documents per URI.\<close>

type_synonym ('t, 'y) store = "string \<rightharpoonup> ('t, 'y) Document"

text \<open>Modelled from the spec: recomputation of a pending document in the missing store:
  the text is parsed and the tree analyzed anew, and the mark is cleared.\<close>

definition recompute :: "('t, 'y) pipeline \<Rightarrow> ('t, 'y) Document \<Rightarrow> ('t, 'y) Document" where
  "recompute pl d =
     (let (t, pds) = parse pl (text_buffer d);
          (y, ads) = analyze pl t
      in d\<lparr>tree := t, symbols := y, diagnostics := set (pds @ ads), pending := False\<rparr>)"

text \<open>Modelled from the spec: \<^verbatim>\<open>open(uri, text) -> Document\<close> of the missing store.
  The spec gives \<^verbatim>\<open>open\<close> no version argument; a fresh document starts at version 0.\<close>

definition open_document ::
  "('t, 'y) pipeline \<Rightarrow> ('t, 'y) store \<Rightarrow> string \<Rightarrow> string
    \<Rightarrow> ('t, 'y) store \<times> ('t, 'y) Document" where
  "open_document pl st u txt =
     (let (t, pds) = parse pl txt;
          (y, ads) = analyze pl t;
          d = \<lparr>uri = u, version = 0, text_buffer = txt, tree = t, symbols = y,
               diagnostics = set (pds @ ads), pending = False\<rparr>
      in (st(u \<mapsto> d), d))"

text \<open>Modelled from the spec: splicing an edit into the text buffer (missing store code).\<close>

definition splice :: "Edit \<Rightarrow> string \<Rightarrow> string" where
  "splice e txt = take (range_start e) txt @ new_text e @ drop (range_end e) txt"

text \<open>Modelled from the spec: \<^verbatim>\<open>applyEdit(uri, Edit) -> Document version\<close> of the missing
  store (section 4.3). It fails with \<open>UnknownDocument\<close> if the URI holds no document and
  with \<open>StaleVersion\<close> if the edit's base version is not the stored version; on success it
  splices the edit into the text buffer, bumps the version to the one the edit carries and
  marks tree and symbol table as pending. The store after the call is returned with the
  result, so that a failure shows what it left behind.\<close>

definition applyEdit ::
  "('t, 'y) store \<Rightarrow> string \<Rightarrow> Edit \<Rightarrow> ('t, 'y) store \<times> (store_error + nat)" where
  "applyEdit st u e =
     (case st u of
        None \<Rightarrow> (st, Inl UnknownDocument)
      | Some d \<Rightarrow>
          if base_version e \<noteq> version d then (st, Inl StaleVersion)
          else (st(u \<mapsto> d\<lparr>text_buffer := splice e (text_buffer d),
                           version := new_version e, pending := True\<rparr>),
                Inr (new_version e)))"

text \<open>Modelled from the spec: \<^verbatim>\<open>close(uri)\<close> of the missing store.\<close>

definition close_document :: "('t, 'y) store \<Rightarrow> string \<Rightarrow> ('t, 'y) store" where
  "close_document st u = st(u := None)"

text \<open>Modelled from the spec: \<^verbatim>\<open>get(uri) -> Document\<close> of the missing store, where the
  lazy recomputation happens.\<close>

definition get_document ::
  "('t, 'y) pipeline \<Rightarrow> ('t, 'y) store \<Rightarrow> string
    \<Rightarrow> ('t, 'y) store \<times> (store_error + ('t, 'y) Document)" where
  "get_document pl st u =
     (case st u of
        None \<Rightarrow> (st, Inl UnknownDocument)
      | Some d \<Rightarrow>
          if pending d then (let d' = recompute pl d in (st(u \<mapsto> d'), Inr d'))
          else (st, Inr d))"

text \<open>Modelled from the spec: the four operations the missing store exposes, as the
  calls a session makes on it.\<close>

datatype store_op = Open string string | ApplyEdit string Edit | Close string | Get string

text \<open>Modelled from the spec: the effect of one call on the missing store.\<close>

fun apply_op :: "('t, 'y) pipeline \<Rightarrow> ('t, 'y) store \<Rightarrow> store_op \<Rightarrow> ('t, 'y) store" where
  "apply_op pl st (Open u txt) = fst (open_document pl st u txt)"
| "apply_op pl st (ApplyEdit u e) = fst (applyEdit st u e)"
| "apply_op pl st (Close u) = close_document st u"
| "apply_op pl st (Get u) = fst (get_document pl st u)"

text \<open>Modelled from the spec: a history of calls on the missing store, in arrival order
  (section 5: operations on the store are serialised).\<close>

fun run_ops :: "('t, 'y) pipeline \<Rightarrow> ('t, 'y) store \<Rightarrow> store_op list \<Rightarrow> ('t, 'y) store" where
  "run_ops pl st [] = st"
| "run_ops pl st (x # xs) = run_ops pl (apply_op pl st x) xs"

text \<open>Modelled from the spec: whether a call on the missing store opens the given URI.\<close>

fun opens :: "string \<Rightarrow> store_op \<Rightarrow> bool" where
  "opens u (Open u' txt) = (u' = u)"
| "opens u x = False"

text \<open>A pipeline, an edit and a document for evaluation: the tree is the text itself and
  the symbol table its length.\<close>

definition sample_pipeline :: "(string, nat) pipeline" where
  "sample_pipeline = \<lparr>parse = (\<lambda>txt. (txt, [])), analyze = (\<lambda>t. (length t, []))\<rparr>"

definition sample_edit :: Edit where
  "sample_edit =
     \<lparr>range_start = 0, range_end = 1, new_text = ''J'', base_version = 3, new_version = 4\<rparr>"

subsection \<open>Lexer\<close>

text \<open>Modelled from the spec: the token kinds of section 3, with the \<^verbatim>\<open>invalid\<close> kind
  of section 4.1 (lexer code missing from the sources).\<close>

datatype token_kind =
  Identifier | Keyword | Operator | Literal | Comment | Whitespace | EndOfFile | Invalid

text \<open>Modelled from the spec: the Token of section 3 of the missing lexer: kind,
  byte-offset span (end exclusive), line and column of its first byte.\<close>

record Token =
  kind :: token_kind
  span_start :: nat
  span_end :: nat
  line :: nat
  column :: nat

text \<open>Modelled from the spec: the lexical grammar of the missing lexer. The spec leaves
  the grammar of the dialect open (section 9), so it is a parameter: for the rest of the
  input it names the kind and the byte length of the lexeme found at its head, if any.\<close>

type_synonym recogniser = "string \<Rightarrow> (token_kind \<times> nat) option"

text \<open>Modelled from the spec: the line of a byte offset (missing lexer code), counted
  from 0, lines ending at a line feed.\<close>

definition line_of :: "string \<Rightarrow> nat \<Rightarrow> nat" where
  "line_of src off = length (filter (\<lambda>c. c = CHR 0x0A) (take off src))"

text \<open>Modelled from the spec: the column of a byte offset (missing lexer code), counted
  from 0 in bytes from the start of its line.\<close>

definition column_of :: "string \<Rightarrow> nat \<Rightarrow> nat" where
  "column_of src off = length (takeWhile (\<lambda>c. c \<noteq> CHR 0x0A) (rev (take off src)))"

text \<open>Modelled from the spec: a token of the missing lexer for the span from \<open>a\<close> to
  \<open>b\<close>.\<close>

definition make_token :: "string \<Rightarrow> token_kind \<Rightarrow> nat \<Rightarrow> nat \<Rightarrow> Token" where
  "make_token src k a b =
     \<lparr>kind = k, span_start = a, span_end = b, line = line_of src a, column = column_of src a\<rparr>"

text \<open>Modelled from the spec: what the missing lexer takes as recognised: a lexeme of at
  least one byte that lies within the input and is of a kind a lexeme can have. Anything
  else the grammar answers counts as unrecognised.\<close>

definition recognised :: "recogniser \<Rightarrow> string \<Rightarrow> (token_kind \<times> nat) option" where
  "recognised r rest =
     (case r rest of
        None \<Rightarrow> None
      | Some (k, n) \<Rightarrow>
          if 0 < n \<and> n \<le> length rest \<and> k \<noteq> EndOfFile \<and> k \<noteq> Invalid then Some (k, n)
          else None)"

text \<open>Modelled from the spec: the diagnostic the missing lexer attaches to an unrecognised
  character.\<close>

definition invalid_character :: "nat \<Rightarrow> Diagnostic" where
  "invalid_character off =
     \<lparr>severity = Error, diag_start = off, diag_end = off + 1,
      message_text = ''unrecognized character'', source_tag = ''lexer''\<rparr>"

text \<open>Modelled from the spec: the Lexer of section 4.1, missing from the sources. Given
  the source text and a starting offset it produces the tokens from there to the end of
  the input and its diagnostics: at the end of the input the end-of-file token; at a
  recognised lexeme its token; at an unrecognised character a one-byte token of kind
  \<open>Invalid\<close> with a diagnostic, after which lexing goes on. The lazy sequence of the
  spec is given as the finite list of all its tokens.\<close>

function lex :: "recogniser \<Rightarrow> string \<Rightarrow> nat \<Rightarrow> Token list \<times> Diagnostic list" where
  "lex r src off =
     (if length src \<le> off then ([make_token src EndOfFile off off], [])
      else case recognised r (drop off src) of
             Some (k, n) \<Rightarrow>
               (case lex r src (off + n) of
                  (ts, ds) \<Rightarrow> (make_token src k off (off + n) # ts, ds))
           | None \<Rightarrow>
               (case lex r src (off + 1) of
                  (ts, ds) \<Rightarrow> (make_token src Invalid off (off + 1) # ts,
                               invalid_character off # ds)))"
  by pat_completeness auto
termination
  by (relation "measure (\<lambda>(r, src, off). length src - off)")
    (auto simp: recognised_def split: option.splits if_splits)

declare lex.simps [simp del]

text \<open>Modelled from the spec: the source span of a token, as the bytes of the text it
  covers (missing lexer code).\<close>

definition span_text :: "string \<Rightarrow> Token \<Rightarrow> string" where
  "span_text src t = take (span_end t - span_start t) (drop (span_start t) src)"

text \<open>A small grammar for evaluation: runs of blanks are whitespace, runs of lower-case
  letters are identifiers, nothing else is recognised.\<close>

definition sample_recogniser :: recogniser where
  "sample_recogniser rest =
     (case rest of
        [] \<Rightarrow> None
      | c # cs \<Rightarrow>
          if c = CHR '' ''
            then Some (Whitespace, Suc (length (takeWhile (\<lambda>x. x = CHR '' '') cs)))
          else if c \<in> set ''abcdefghijklmnopqrstuvwxyz''
            then Some (Identifier,
                   Suc (length (takeWhile (\<lambda>x. x \<in> set ''abcdefghijklmnopqrstuvwxyz'') cs)))
          else None)"

section \<open>Properties of the front-ends\<close>

lemmas host_defs = createFileSystemWatcher_def console_log_def new_LanguageClient_def
  client_start_def client_stop_def emit_def

lemmas front_end_defs = vscode_extension_activate_def rblx_react_lsp_activate_def
  vscode_extension_deactivate_def rblx_react_lsp_deactivate_def
  vscode_extension_start_settled_def rblx_react_lsp_start_settled_def ver_def

lemmas concrete_host_defs = posix_def ext_context_def initial_def sample_client_def

text \<open>
  Claim C1. For every path module, every activation context and every module state, each
  \<^verbatim>\<open>activate\<close> assigns the module-level client to a freshly constructed client whose
  server command (run and debug alike) is the context's absolute path of the joined
  segments, whose document selector is the one-element list of the source and whose file
  watcher is the one created for \<^verbatim>\<open>**/.clientrc\<close>; the effects it adds are exactly the
  creation of the watcher, (in rblx-react-lsp) one log line, the construction of the client
  and its start, in this order and nothing else, so no parsing, analysis or diagnostics is
  done by the front-end. The \<^verbatim>\<open>deactivate\<close> of the same front-end, run on the state
  that \<^verbatim>\<open>activate\<close> leaves, stops that very client and hands back the promise of the stop.
\<close>

theorem front_ends_activate_then_deactivate:
  "(\<exists>c. client (vscode_extension_activate path context s) = Some c
      \<and> command (run (server_options c)) = asAbsolutePath context
           (join path [''..'', ''lsp-server'', ''target'', ''debug'', ''React_lSP''])
      \<and> command (debug (server_options c)) = command (run (server_options c))
      \<and> documentSelector (client_options c) = [\<lparr>scheme = ''file'', language = ''.luau''\<rparr>]
      \<and> fileEvents (client_options c) = Watcher ''**/.clientrc''
      \<and> effects (vscode_extension_activate path context s) =
            effects s @ [CreateFileSystemWatcher ''**/.clientrc'', NewLanguageClient c, Start c]
      \<and> vscode_extension_deactivate (vscode_extension_activate path context s) =
            (Some (Stopped c), emit (Stop c) (vscode_extension_activate path context s)))
   \<and> (\<exists>c. client (rblx_react_lsp_activate path context s) = Some c
      \<and> command (run (server_options c)) = asAbsolutePath context
           (join path [''..'', ''lsp-server'', ''target'', ''debug'', ''React_LSP.exe''])
      \<and> command (debug (server_options c)) = command (run (server_options c))
      \<and> documentSelector (client_options c) = [\<lparr>scheme = ''file'', language = ''lua''\<rparr>]
      \<and> fileEvents (client_options c) = Watcher ''**/.clientrc''
      \<and> effects (rblx_react_lsp_activate path context s) =
            effects s @ [CreateFileSystemWatcher ''**/.clientrc'',
                         ConsoleLog ''Server V3 starting...'', NewLanguageClient c, Start c]
      \<and> rblx_react_lsp_deactivate (rblx_react_lsp_activate path context s) =
            (Some (Stopped c), emit (Stop c) (rblx_react_lsp_activate path context s)))"
  by (simp add: front_end_defs host_defs Let_def)

text \<open>
  Claim C2, as stated: the two \<^verbatim>\<open>activate\<close> functions construct the client with the
  same server executable path and the same document selector. On the POSIX host with the
  extension under \<^verbatim>\<open>/ext\<close> they do not: the commands are
  \<^verbatim>\<open>/ext/../lsp-server/target/debug/React_lSP\<close> and
  \<^verbatim>\<open>/ext/../lsp-server/target/debug/React_LSP.exe\<close>, the selector languages
  \<^verbatim>\<open>.luau\<close> and \<^verbatim>\<open>lua\<close>, and the resulting module states differ.
\<close>

theorem activate_differs_counterexample:
  "map_option (\<lambda>c. command (run (server_options c)))
       (client (vscode_extension_activate posix ext_context initial))
     = Some ''/ext/../lsp-server/target/debug/React_lSP''
   \<and> map_option (\<lambda>c. command (run (server_options c)))
       (client (rblx_react_lsp_activate posix ext_context initial))
     = Some ''/ext/../lsp-server/target/debug/React_LSP.exe''
   \<and> map_option (\<lambda>c. documentSelector (client_options c))
       (client (vscode_extension_activate posix ext_context initial))
     = Some [\<lparr>scheme = ''file'', language = ''.luau''\<rparr>]
   \<and> map_option (\<lambda>c. documentSelector (client_options c))
       (client (rblx_react_lsp_activate posix ext_context initial))
     = Some [\<lparr>scheme = ''file'', language = ''lua''\<rparr>]
   \<and> vscode_extension_activate posix ext_context initial
       \<noteq> rblx_react_lsp_activate posix ext_context initial"
  by (simp add: front_end_defs host_defs concrete_host_defs Let_def)

text \<open>
  Claim C2, amended. For every path module, context and module state the two
  \<^verbatim>\<open>activate\<close> functions construct clients that agree in id (\<^verbatim>\<open>rblxReactLSP\<close>), name
  (\<^verbatim>\<open>RBLX React LSP\<close>), transport of the run and debug executables (stdio), scheme of
  the document selector (\<^verbatim>\<open>file\<close>) and file watcher (the one for \<^verbatim>\<open>**/.clientrc\<close>),
  whose debug command is their run command, and whose server commands are the context's
  absolute path of the same four directory segments followed by a file name; they differ
  in that file name (\<^verbatim>\<open>React_lSP\<close> in
  vscode-extension, \<^verbatim>\<open>React_LSP.exe\<close> in rblx-react-lsp) and in the language of the
  document selector (\<^verbatim>\<open>.luau\<close> and \<^verbatim>\<open>lua\<close>), so the selectors are never equal.
\<close>

theorem activate_agreement:
  "\<exists>cv cr. client (vscode_extension_activate path context s) = Some cv
     \<and> client (rblx_react_lsp_activate path context s) = Some cr
     \<and> client_id cv = client_id cr
     \<and> client_name cv = client_name cr
     \<and> transport (run (server_options cv)) = transport (run (server_options cr))
     \<and> transport (debug (server_options cv)) = transport (debug (server_options cr))
     \<and> map scheme (documentSelector (client_options cv))
         = map scheme (documentSelector (client_options cr))
     \<and> fileEvents (client_options cv) = fileEvents (client_options cr)
     \<and> command (run (server_options cv)) = asAbsolutePath context
          (join path [''..'', ''lsp-server'', ''target'', ''debug'', ''React_lSP''])
     \<and> command (run (server_options cr)) = asAbsolutePath context
          (join path [''..'', ''lsp-server'', ''target'', ''debug'', ''React_LSP.exe''])
     \<and> map language (documentSelector (client_options cv)) = [''.luau'']
     \<and> map language (documentSelector (client_options cr)) = [''lua'']
     \<and> documentSelector (client_options cv) \<noteq> documentSelector (client_options cr)
     \<and> client_id cv = ''rblxReactLSP''
     \<and> client_name cv = ''RBLX React LSP''
     \<and> transport (run (server_options cv)) = stdio
     \<and> transport (debug (server_options cv)) = stdio
     \<and> command (debug (server_options cv)) = command (run (server_options cv))
     \<and> command (debug (server_options cr)) = command (run (server_options cr))
     \<and> map scheme (documentSelector (client_options cv)) = [''file'']
     \<and> fileEvents (client_options cv) = Watcher ''**/.clientrc''"
  by (simp add: front_end_defs host_defs Let_def)

text \<open>
  Claim C3, as stated: in every execution of \<^verbatim>\<open>deactivate\<close> the branch taken is the one
  that forwards \<^verbatim>\<open>stop()\<close>. In the state of a module that was loaded and never
  activated, \<^verbatim>\<open>deactivate\<close> of either front-end takes the guard instead: it returns
  \<^verbatim>\<open>undefined\<close> and no call reaches the library.
\<close>

theorem deactivate_without_client_counterexample:
  "fst (vscode_extension_deactivate initial) = None
   \<and> effects (snd (vscode_extension_deactivate initial)) = []
   \<and> fst (rblx_react_lsp_deactivate initial) = None
   \<and> effects (snd (rblx_react_lsp_deactivate initial)) = []"
  by (simp add: front_end_defs concrete_host_defs)

text \<open>
  Claim C3, amended. Every execution of \<^verbatim>\<open>activate\<close> assigns the client and ends by
  forwarding \<^verbatim>\<open>start()\<close> to it, unconditionally. The outcome of the start is not
  handled: vscode-extension ignores the settlement, rblx-react-lsp does nothing on a
  rejection and only logs on fulfilment. \<^verbatim>\<open>deactivate\<close> keeps the client variable and
  has one guard: its only possible effect is a single \<^verbatim>\<open>stop()\<close> forwarded to the
  assigned client, and when no client is assigned it has no effect at all.
\<close>

theorem forwarding_and_guard:
  "(\<exists>c. client (vscode_extension_activate path context s) = Some c
        \<and> last (effects (vscode_extension_activate path context s)) = Start c)
   \<and> (\<exists>c. client (rblx_react_lsp_activate path context s) = Some c
        \<and> last (effects (rblx_react_lsp_activate path context s)) = Start c)
   \<and> vscode_extension_start_settled outcome s = s
   \<and> rblx_react_lsp_start_settled (Rejected reason) s = s
   \<and> rblx_react_lsp_start_settled Fulfilled s = emit (ConsoleLog ''Server V3 started!'') s
   \<and> client (snd (vscode_extension_deactivate s)) = client s
   \<and> effects (snd (vscode_extension_deactivate s))
        = effects s @ (case client s of None \<Rightarrow> [] | Some c \<Rightarrow> [Stop c])
   \<and> client (snd (rblx_react_lsp_deactivate s)) = client s
   \<and> effects (snd (rblx_react_lsp_deactivate s))
        = effects s @ (case client s of None \<Rightarrow> [] | Some c \<Rightarrow> [Stop c])"
  by (simp add: front_end_defs host_defs Let_def split: option.split)

text \<open>
  Claim C4. For every module state and either front-end: when the module-level client is
  \<^verbatim>\<open>undefined\<close>, \<^verbatim>\<open>deactivate\<close> returns \<^verbatim>\<open>undefined\<close> and leaves the state as it
  was, so \<^verbatim>\<open>stop\<close> is not called; when it holds a client \<open>c\<close>, \<^verbatim>\<open>deactivate\<close>
  returns exactly the value of \<^verbatim>\<open>c.stop()\<close> and leaves the state that call leaves.
\<close>

theorem deactivate_result:
  "(client s = None \<longrightarrow>
      vscode_extension_deactivate s = (None, s) \<and> rblx_react_lsp_deactivate s = (None, s))
   \<and> (client s = Some c \<longrightarrow>
      vscode_extension_deactivate s = (Some (fst (client_stop c s)), snd (client_stop c s))
      \<and> rblx_react_lsp_deactivate s = (Some (fst (client_stop c s)), snd (client_stop c s)))"
  by (simp add: vscode_extension_deactivate_def rblx_react_lsp_deactivate_def
      split: prod.split)

theorem deactivate_result_witness:
  "client initial = None
   \<and> vscode_extension_deactivate initial = (None, initial)
   \<and> rblx_react_lsp_deactivate initial = (None, initial)
   \<and> client (rblx_react_lsp_activate posix ext_context initial) = Some sample_client
   \<and> fst (rblx_react_lsp_deactivate (rblx_react_lsp_activate posix ext_context initial))
       = Some (Stopped sample_client)
   \<and> fst (vscode_extension_deactivate (rblx_react_lsp_activate posix ext_context initial))
       = Some (Stopped sample_client)"
proof -
  have none: "client initial = None"
    by (simp add: initial_def)
  have some: "client (rblx_react_lsp_activate posix ext_context initial) = Some sample_client"
    by (simp add: rblx_react_lsp_activate_def host_defs concrete_host_defs Let_def)
  show ?thesis
    using none some deactivate_result [of initial]
      deactivate_result [of "rblx_react_lsp_activate posix ext_context initial" sample_client]
    by (simp add: client_stop_def)
qed

section \<open>Properties of the protocol session\<close>

lemma handle_rank: "handle s m = (s', r) \<Longrightarrow> rank s \<le> rank s'"
  by (cases s) (auto split: if_splits)

lemma handle_table:
  assumes "handle s m = (s', r)"
  shows "rank s \<le> rank s'
      \<and> (m = Initialize \<longrightarrow>
          (if s = Uninitialized then r = Accepted \<and> s' = Initialized
           else r = Failed InvalidState \<and> s' = s))
      \<and> (s = Uninitialized \<and> \<not> is_notification m
          \<and> m \<noteq> Initialize \<and> m \<noteq> Shutdown \<and> m \<noteq> Exit \<longrightarrow>
          r = Failed ServerNotInitialized \<and> s' = Uninitialized)
      \<and> (s \<noteq> Closed \<and> m = Shutdown \<longrightarrow> r = Accepted \<and> s' = ShuttingDown)
      \<and> (s \<noteq> Closed \<and> m = Exit \<longrightarrow> r = Accepted \<and> s' = Closed)
      \<and> (s = Closed \<and> \<not> is_notification m \<longrightarrow> r = Failed InvalidState \<and> s' = Closed)"
  using assms by (cases s) (auto split: if_splits)

lemma steps_member:
  "t \<in> set (steps s ms) \<Longrightarrow>
     handle (before t) (message t) = (after t, response t) \<and> rank s \<le> rank (before t)"
proof (induction ms arbitrary: s)
  case Nil
  then show ?case by simp
next
  case (Cons m ms)
  obtain s' r where h: "handle s m = (s', r)" by (cases "handle s m")
  from Cons.prems h
  have "t = \<lparr>before = s, message = m, response = r, after = s'\<rparr> \<or> t \<in> set (steps s' ms)"
    by simp
  then show ?case
  proof
    assume "t = \<lparr>before = s, message = m, response = r, after = s'\<rparr>"
    with h show ?thesis by simp
  next
    assume "t \<in> set (steps s' ms)"
    from Cons.IH [OF this] handle_rank [OF h] show ?thesis by simp
  qed
qed

lemma rank_Uninitialized: "rank s = 0 \<longleftrightarrow> s = Uninitialized"
  by (cases s) simp_all

lemma rank_Closed: "3 \<le> rank s \<longleftrightarrow> s = Closed"
  by (cases s) simp_all

lemma no_initialize_later:
  assumes "s \<noteq> Uninitialized"
  shows "filter accepted_initialize (steps s ms) = []"
proof -
  have "\<not> accepted_initialize t" if "t \<in> set (steps s ms)" for t
  proof -
    from steps_member [OF that] assms have "before t \<noteq> Uninitialized"
      by (cases s) auto
    with steps_member [OF that] show ?thesis
      by (auto simp: accepted_initialize_def split: if_splits)
  qed
  then show ?thesis by (simp add: filter_empty_conv)
qed

lemma at_most_one_initialize:
  "length (filter accepted_initialize (steps s ms)) \<le> 1"
proof (induction ms arbitrary: s)
  case Nil
  then show ?case by simp
next
  case (Cons m ms)
  obtain s' r where h: "handle s m = (s', r)" by (cases "handle s m")
  show ?case
  proof (cases "accepted_initialize \<lparr>before = s, message = m, response = r, after = s'\<rparr>")
    case True
    with h have "s' \<noteq> Uninitialized"
      by (auto simp: accepted_initialize_def split: if_splits)
    from no_initialize_later [OF this] True h show ?thesis by simp
  next
    case False
    with Cons.IH [of s'] h show ?thesis by simp
  qed
qed

lemma length_steps: "length (steps s ms) = length ms"
  by (induction ms arbitrary: s) (auto simp del: handle.simps split: prod.splits)

lemma steps_nth_message: "j < length ms \<Longrightarrow> message (steps s ms ! j) = ms ! j"
proof (induction ms arbitrary: s j)
  case Nil
  then show ?case by simp
next
  case (Cons m ms)
  then show ?case
    by (cases j) (auto simp del: handle.simps split: prod.splits)
qed

lemma steps_after_exit:
  "i < j \<Longrightarrow> j < length ms \<Longrightarrow> ms ! i = Exit \<Longrightarrow> before (steps s ms ! j) = Closed"
proof (induction ms arbitrary: s i j)
  case Nil
  then show ?case by simp
next
  case (Cons m ms)
  obtain s' r where h: "handle s m = (s', r)" by (cases "handle s m")
  from Cons.prems obtain j' where j: "j = Suc j'" "j' < length ms"
    by (cases j) auto
  show ?case
  proof (cases i)
    case 0
    with Cons.prems h have "s' = Closed" by (auto split: if_splits)
    moreover from j have "steps s' ms ! j' \<in> set (steps s' ms)"
      by (simp add: length_steps)
    ultimately have "3 \<le> rank (before (steps s' ms ! j'))"
      using steps_member [of "steps s' ms ! j'" s' ms] by simp
    then have "before (steps s' ms ! j') = Closed"
      by (simp add: rank_Closed)
    with h j show ?thesis by simp
  next
    case (Suc i')
    with Cons.prems j have "i' < j'" "ms ! i' = Exit" by simp_all
    from Cons.IH [OF this(1) j(2) this(2)] h j show ?thesis by simp
  qed
qed

lemma handle_moves:
  assumes "handle s m = (s', r)"
  shows "(s' \<noteq> s \<longrightarrow> r = Accepted \<and> (m = Initialize \<or> m = Shutdown \<or> m = Exit))
      \<and> (is_notification m \<longrightarrow> r = NoReply \<and> s' = s)
      \<and> (s = Initialized \<and> \<not> is_notification m
          \<and> m \<noteq> Initialize \<and> m \<noteq> Shutdown \<and> m \<noteq> Exit \<longrightarrow>
          r = Accepted \<and> s' = Initialized)"
  using assms by (cases s) (auto split: if_splits)

lemma steps_messages: "map message (steps s ms) = ms"
  by (induction ms arbitrary: s) (auto simp del: handle.simps split: prod.splits)

lemma steps_start: "steps s ms \<noteq> [] \<Longrightarrow> before (hd (steps s ms)) = s"
  by (cases ms) (auto simp del: handle.simps split: prod.splits)

lemma steps_chain:
  "Suc k < length (steps s ms) \<Longrightarrow> before (steps s ms ! Suc k) = after (steps s ms ! k)"
proof (induction ms arbitrary: s k)
  case Nil
  then show ?case by simp
next
  case (Cons m ms)
  obtain s' r where h: "handle s m = (s', r)" by (cases "handle s m")
  show ?case
  proof (cases k)
    case 0
    with Cons.prems h have "steps s' ms \<noteq> []" by auto
    from steps_start [OF this] h 0 show ?thesis
      by (simp add: hd_conv_nth \<open>steps s' ms \<noteq> []\<close>)
  next
    case (Suc k')
    with Cons.prems h have "Suc k' < length (steps s' ms)" by simp
    from Cons.IH [OF this] h Suc show ?thesis by simp
  qed
qed

lemma accepted_initialize_after:
  "t \<in> set (steps s ms) \<Longrightarrow> accepted_initialize t \<Longrightarrow> after t = Initialized"
  using steps_member [of t s ms]
  by (auto simp: accepted_initialize_def split: if_splits)

lemma initialize_when_reached:
  "t \<in> set (steps Uninitialized ms) \<Longrightarrow> after t = Initialized \<Longrightarrow>
     filter accepted_initialize (steps Uninitialized ms) \<noteq> []"
proof (induction ms)
  case Nil
  then show ?case by simp
next
  case (Cons m ms)
  obtain s' r where h: "handle Uninitialized m = (s', r)"
    by (cases "handle Uninitialized m")
  let ?first = "\<lparr>before = Uninitialized, message = m, response = r, after = s'\<rparr>"
  from h have unfold: "steps Uninitialized (m # ms) = ?first # steps s' ms" by simp
  show ?case
  proof (cases "accepted_initialize ?first")
    case True
    with unfold show ?thesis by simp
  next
    case False
    with h have s': "s' \<noteq> Initialized"
      by (auto simp: accepted_initialize_def split: if_splits)
    from Cons.prems(1) have "t \<in> set (?first # steps s' ms)"
      by (simp only: unfold)
    with Cons.prems(2) s' have rest: "t \<in> set (steps s' ms)" by auto
    show ?thesis
    proof (cases "s' = Uninitialized")
      case True
      with rest Cons.IH Cons.prems(2) unfold show ?thesis by simp
    next
      case False
      with s' have "2 \<le> rank s'" by (cases s') simp_all
      moreover from steps_member [OF rest]
      have "rank s' \<le> rank (before t)" "rank (before t) \<le> rank (after t)"
        using handle_rank [of "before t" "message t" "after t" "response t"] by simp_all
      ultimately have "2 \<le> rank (after t)" by simp
      with Cons.prems(2) show ?thesis by simp
    qed
  qed
qed

lemma exactly_one_initialize:
  "length (filter accepted_initialize (steps Uninitialized ms))
     = (if \<exists>t \<in> set (steps Uninitialized ms). after t = Initialized then 1 else 0)"
proof (cases "\<exists>t \<in> set (steps Uninitialized ms). after t = Initialized")
  case True
  then obtain t where "t \<in> set (steps Uninitialized ms)" "after t = Initialized" by blast
  from initialize_when_reached [OF this]
  have "length (filter accepted_initialize (steps Uninitialized ms)) \<noteq> 0" by simp
  with at_most_one_initialize [of Uninitialized ms]
  have "length (filter accepted_initialize (steps Uninitialized ms)) = 1" by linarith
  with True show ?thesis by (simp only: if_True)
next
  case False
  then have "\<forall>t \<in> set (steps Uninitialized ms). \<not> accepted_initialize t"
    using accepted_initialize_after by blast
  then have "filter accepted_initialize (steps Uninitialized ms) = []"
    by (simp add: filter_empty_conv)
  with False show ?thesis by simp
qed

text \<open>
  Claim C5. For every sequence of incoming messages, handled in arrival order from
  \<open>Uninitialized\<close> (each message from the state the previous one left):
  no step moves backwards in the chain \<open>Uninitialized \<rightarrow> Initialized \<rightarrow> ShuttingDown \<rightarrow> Closed\<close>,
  and the state changes only on an accepted \<^verbatim>\<open>initialize\<close>, \<^verbatim>\<open>shutdown\<close> or
  \<^verbatim>\<open>exit\<close>; a notification gets no response and changes nothing.
  An \<^verbatim>\<open>initialize\<close> received while \<open>Uninitialized\<close> is accepted and leaves that state
  for \<open>Initialized\<close>, and one received later is refused; the number of accepted
  \<^verbatim>\<open>initialize\<close> requests in the whole sequence is exactly one if the session ever
  reaches \<open>Initialized\<close> and zero otherwise, so never more than one.
  Any request other than \<^verbatim>\<open>initialize\<close>, \<^verbatim>\<open>shutdown\<close> and \<^verbatim>\<open>exit\<close> received while
  \<open>Uninitialized\<close> fails with \<open>ServerNotInitialized\<close> and is accepted, without a change
  of state, while \<open>Initialized\<close>; \<^verbatim>\<open>shutdown\<close> and \<^verbatim>\<open>exit\<close> are accepted in every
  state but \<open>Closed\<close>, \<open>Uninitialized\<close> included, and lead to \<open>ShuttingDown\<close> and
  \<open>Closed\<close>; every request received in state \<open>Closed\<close>, and so every request that
  arrives after an \<^verbatim>\<open>exit\<close>, fails with \<open>InvalidState\<close>.
\<close>

theorem session_state_machine:
  "(\<forall>t \<in> set (steps Uninitialized ms). rank (before t) \<le> rank (after t))
   \<and> length (filter accepted_initialize (steps Uninitialized ms)) \<le> 1
   \<and> (\<forall>t \<in> set (steps Uninitialized ms).
        message t = Initialize \<longrightarrow>
          (if before t = Uninitialized then response t = Accepted \<and> after t = Initialized
           else response t = Failed InvalidState \<and> after t = before t))
   \<and> (\<forall>t \<in> set (steps Uninitialized ms).
        before t = Uninitialized \<and> \<not> is_notification (message t)
          \<and> message t \<noteq> Initialize \<and> message t \<noteq> Shutdown \<and> message t \<noteq> Exit \<longrightarrow>
          response t = Failed ServerNotInitialized \<and> after t = Uninitialized)
   \<and> (\<forall>t \<in> set (steps Uninitialized ms).
        before t \<noteq> Closed \<and> message t = Shutdown \<longrightarrow>
          response t = Accepted \<and> after t = ShuttingDown)
   \<and> (\<forall>t \<in> set (steps Uninitialized ms).
        before t \<noteq> Closed \<and> message t = Exit \<longrightarrow> response t = Accepted \<and> after t = Closed)
   \<and> (\<forall>t \<in> set (steps Uninitialized ms).
        before t = Closed \<and> \<not> is_notification (message t) \<longrightarrow>
          response t = Failed InvalidState \<and> after t = Closed)
   \<and> (\<forall>i j. i < j \<and> j < length ms \<and> ms ! i = Exit \<and> \<not> is_notification (ms ! j) \<longrightarrow>
          response (steps Uninitialized ms ! j) = Failed InvalidState)
   \<and> length (filter accepted_initialize (steps Uninitialized ms))
        = (if \<exists>t \<in> set (steps Uninitialized ms). after t = Initialized then 1 else 0)
   \<and> (\<forall>t \<in> set (steps Uninitialized ms).
        after t \<noteq> before t \<longrightarrow>
          response t = Accepted
          \<and> (message t = Initialize \<or> message t = Shutdown \<or> message t = Exit))
   \<and> (\<forall>t \<in> set (steps Uninitialized ms).
        is_notification (message t) \<longrightarrow> response t = NoReply \<and> after t = before t)
   \<and> (\<forall>t \<in> set (steps Uninitialized ms).
        before t = Initialized \<and> \<not> is_notification (message t)
          \<and> message t \<noteq> Initialize \<and> message t \<noteq> Shutdown \<and> message t \<noteq> Exit \<longrightarrow>
          response t = Accepted \<and> after t = Initialized)
   \<and> map message (steps Uninitialized ms) = ms
   \<and> (steps Uninitialized ms \<noteq> [] \<longrightarrow> before (hd (steps Uninitialized ms)) = Uninitialized)
   \<and> (\<forall>k. Suc k < length ms \<longrightarrow>
          before (steps Uninitialized ms ! Suc k) = after (steps Uninitialized ms ! k))"
proof -
  let ?tr = "steps Uninitialized ms"
  have each: "rank (before t) \<le> rank (after t)
      \<and> (message t = Initialize \<longrightarrow>
          (if before t = Uninitialized then response t = Accepted \<and> after t = Initialized
           else response t = Failed InvalidState \<and> after t = before t))
      \<and> (before t = Uninitialized \<and> \<not> is_notification (message t)
          \<and> message t \<noteq> Initialize \<and> message t \<noteq> Shutdown \<and> message t \<noteq> Exit \<longrightarrow>
          response t = Failed ServerNotInitialized \<and> after t = Uninitialized)
      \<and> (before t \<noteq> Closed \<and> message t = Shutdown \<longrightarrow>
          response t = Accepted \<and> after t = ShuttingDown)
      \<and> (before t \<noteq> Closed \<and> message t = Exit \<longrightarrow> response t = Accepted \<and> after t = Closed)
      \<and> (before t = Closed \<and> \<not> is_notification (message t) \<longrightarrow>
          response t = Failed InvalidState \<and> after t = Closed)"
    if "t \<in> set ?tr" for t
    using steps_member [OF that] handle_table [of "before t" "message t" "after t" "response t"]
    by blast
  have moves: "(after t \<noteq> before t \<longrightarrow>
          response t = Accepted
          \<and> (message t = Initialize \<or> message t = Shutdown \<or> message t = Exit))
      \<and> (is_notification (message t) \<longrightarrow> response t = NoReply \<and> after t = before t)
      \<and> (before t = Initialized \<and> \<not> is_notification (message t)
          \<and> message t \<noteq> Initialize \<and> message t \<noteq> Shutdown \<and> message t \<noteq> Exit \<longrightarrow>
          response t = Accepted \<and> after t = Initialized)"
    if "t \<in> set ?tr" for t
    using steps_member [OF that] handle_moves [of "before t" "message t" "after t" "response t"]
    by blast
  have later: "\<forall>i j. i < j \<and> j < length ms \<and> ms ! i = Exit \<and> \<not> is_notification (ms ! j) \<longrightarrow>
          response (?tr ! j) = Failed InvalidState"
  proof (intro allI impI)
    fix i j
    assume a: "i < j \<and> j < length ms \<and> ms ! i = Exit \<and> \<not> is_notification (ms ! j)"
    then have mem: "?tr ! j \<in> set ?tr"
      by (simp add: length_steps)
    from a have "before (?tr ! j) = Closed"
      using steps_after_exit [of i j ms Uninitialized] by blast
    moreover from a have "\<not> is_notification (message (?tr ! j))"
      by (simp add: steps_nth_message)
    ultimately show "response (?tr ! j) = Failed InvalidState"
      using each [OF mem] by blast
  qed
  have chain: "\<forall>k. Suc k < length ms \<longrightarrow> before (?tr ! Suc k) = after (?tr ! k)"
    by (simp add: steps_chain length_steps)
  have first: "?tr \<noteq> [] \<longrightarrow> before (hd ?tr) = Uninitialized"
    by (simp add: steps_start)
  have old: "(\<forall>t \<in> set ?tr. rank (before t) \<le> rank (after t))
   \<and> length (filter accepted_initialize ?tr) \<le> 1
   \<and> (\<forall>t \<in> set ?tr.
        message t = Initialize \<longrightarrow>
          (if before t = Uninitialized then response t = Accepted \<and> after t = Initialized
           else response t = Failed InvalidState \<and> after t = before t))
   \<and> (\<forall>t \<in> set ?tr.
        before t = Uninitialized \<and> \<not> is_notification (message t)
          \<and> message t \<noteq> Initialize \<and> message t \<noteq> Shutdown \<and> message t \<noteq> Exit \<longrightarrow>
          response t = Failed ServerNotInitialized \<and> after t = Uninitialized)
   \<and> (\<forall>t \<in> set ?tr.
        before t \<noteq> Closed \<and> message t = Shutdown \<longrightarrow>
          response t = Accepted \<and> after t = ShuttingDown)
   \<and> (\<forall>t \<in> set ?tr.
        before t \<noteq> Closed \<and> message t = Exit \<longrightarrow> response t = Accepted \<and> after t = Closed)
   \<and> (\<forall>t \<in> set ?tr.
        before t = Closed \<and> \<not> is_notification (message t) \<longrightarrow>
          response t = Failed InvalidState \<and> after t = Closed)
   \<and> (\<forall>i j. i < j \<and> j < length ms \<and> ms ! i = Exit \<and> \<not> is_notification (ms ! j) \<longrightarrow>
          response (?tr ! j) = Failed InvalidState)"
    using each at_most_one_initialize [of Uninitialized ms] later by blast
  have new: "(\<forall>t \<in> set ?tr.
        after t \<noteq> before t \<longrightarrow>
          response t = Accepted
          \<and> (message t = Initialize \<or> message t = Shutdown \<or> message t = Exit))
   \<and> (\<forall>t \<in> set ?tr.
        is_notification (message t) \<longrightarrow> response t = NoReply \<and> after t = before t)
   \<and> (\<forall>t \<in> set ?tr.
        before t = Initialized \<and> \<not> is_notification (message t)
          \<and> message t \<noteq> Initialize \<and> message t \<noteq> Shutdown \<and> message t \<noteq> Exit \<longrightarrow>
          response t = Accepted \<and> after t = Initialized)"
    using moves by blast
  note all = conjI [OF old conjI [OF exactly_one_initialize [of ms] conjI [OF new
    conjI [OF steps_messages [of Uninitialized ms] conjI [OF first chain]]]]]
  show ?thesis by (rule all [unfolded conj_assoc])
qed

theorem session_state_machine_witness:
  "map response (steps Uninitialized
       [Hover, Initialize, Initialize, Completion, Shutdown, Hover, Exit, Definition, Shutdown])
     = [Failed ServerNotInitialized, Accepted, Failed InvalidState, Accepted, Accepted,
        Failed InvalidState, Accepted, Failed InvalidState, Failed InvalidState]
   \<and> map after (steps Uninitialized
       [Hover, Initialize, Initialize, Completion, Shutdown, Hover, Exit, Definition, Shutdown])
     = [Uninitialized, Initialized, Initialized, Initialized, ShuttingDown,
        ShuttingDown, Closed, Closed, Closed]
   \<and> length (filter accepted_initialize (steps Uninitialized
       [Hover, Initialize, Initialize, Completion, Shutdown, Hover, Exit, Definition, Shutdown]))
     \<le> 1
   \<and> response (steps Uninitialized
       [Hover, Initialize, Initialize, Completion, Shutdown, Hover, Exit, Definition, Shutdown]
         ! 7) = Failed InvalidState
   \<and> length (filter accepted_initialize (steps Uninitialized
       [Hover, Initialize, Initialize, Completion, Shutdown, Hover, Exit, Definition, Shutdown]))
     = 1
   \<and> length (filter accepted_initialize (steps Uninitialized [DidOpen, Hover, Shutdown, Exit]))
     = 0
   \<and> map after (steps Uninitialized [DidOpen, Hover, Shutdown, Exit])
     = [Uninitialized, Uninitialized, ShuttingDown, Closed]"
  using session_state_machine
    [of "[Hover, Initialize, Initialize, Completion, Shutdown, Hover, Exit, Definition, Shutdown]"]
    session_state_machine [of "[DidOpen, Hover, Shutdown, Exit]"]
  by (simp add: accepted_initialize_def)

section \<open>Properties of the document store\<close>

lemma apply_op_absent: "st u = None \<Longrightarrow> \<not> opens u x \<Longrightarrow> apply_op pl st x u = None"
  by (cases x)
    (auto simp: open_document_def applyEdit_def close_document_def get_document_def Let_def
      split: option.splits prod.splits)

lemma run_ops_absent:
  "st u = None \<Longrightarrow> \<forall>x \<in> set ops. \<not> opens u x \<Longrightarrow> run_ops pl st ops u = None"
proof (induction ops arbitrary: st)
  case Nil
  then show ?case by simp
next
  case (Cons x xs)
  from Cons.prems have "apply_op pl st x u = None"
    by (simp add: apply_op_absent)
  with Cons show ?case by simp
qed

text \<open>
  Claim C6. For every history of calls on a store that starts empty, if no call of the
  history opens the URI, then \<^verbatim>\<open>applyEdit\<close> on that URI fails with \<open>UnknownDocument\<close>
  and leaves the store as it was. For every store that holds a document under the URI and
  every edit whose base version differs from the stored version, \<^verbatim>\<open>applyEdit\<close> fails
  with \<open>StaleVersion\<close> and the store after the call is the store before it: the stored
  document, with its text, version, tree and symbol table, is unmodified.
\<close>

theorem applyEdit_failures:
  "((\<forall>x \<in> set ops. \<not> opens u x) \<longrightarrow>
       applyEdit (run_ops pl Map.empty ops) u e
         = (run_ops pl Map.empty ops, Inl UnknownDocument))
   \<and> (st u = Some d \<and> base_version e \<noteq> version d \<longrightarrow>
        applyEdit st u e = (st, Inl StaleVersion)
        \<and> fst (applyEdit st u e) u = Some d)"
proof -
  have "run_ops pl Map.empty ops u = None" if "\<forall>x \<in> set ops. \<not> opens u x"
    using that by (simp add: run_ops_absent)
  then show ?thesis
    by (auto simp: applyEdit_def)
qed

theorem applyEdit_failures_witness:
  "map (opens ''b.lua'') [Open ''a.lua'' ''hello'', Get ''a.lua'', Close ''a.lua'']
     = [False, False, False]
   \<and> snd (applyEdit
        (run_ops sample_pipeline Map.empty [Open ''a.lua'' ''hello'', Get ''a.lua'', Close ''a.lua''])
        ''b.lua'' sample_edit) = Inl UnknownDocument
   \<and> run_ops sample_pipeline Map.empty [Open ''a.lua'' ''hello''] ''a.lua''
        = Some \<lparr>uri = ''a.lua'', version = 0, text_buffer = ''hello'', tree = ''hello'',
                symbols = 5, diagnostics = {}, pending = False\<rparr>
   \<and> base_version sample_edit \<noteq> 0
   \<and> applyEdit (run_ops sample_pipeline Map.empty [Open ''a.lua'' ''hello'']) ''a.lua'' sample_edit
        = (run_ops sample_pipeline Map.empty [Open ''a.lua'' ''hello''], Inl StaleVersion)"
proof -
  have never: "\<forall>x \<in> set [Open ''a.lua'' ''hello'', Get ''a.lua'', Close ''a.lua''].
      \<not> opens ''b.lua'' x"
    by simp
  have stored: "run_ops sample_pipeline Map.empty [Open ''a.lua'' ''hello''] ''a.lua''
        = Some \<lparr>uri = ''a.lua'', version = 0, text_buffer = ''hello'', tree = ''hello'',
                symbols = 5, diagnostics = {}, pending = False\<rparr>"
    by (simp add: open_document_def sample_pipeline_def Let_def eval_nat_numeral)
  have stale: "base_version sample_edit \<noteq> 0"
    by (simp add: sample_edit_def)
  note unknown = applyEdit_failures
    [where ops = "[Open ''a.lua'' ''hello'', Get ''a.lua'', Close ''a.lua'']"
       and u = "''b.lua''" and pl = sample_pipeline and e = sample_edit,
     THEN conjunct1, THEN mp, OF never]
  from stale have differs: "base_version sample_edit
      \<noteq> version \<lparr>uri = ''a.lua'', version = 0, text_buffer = ''hello'', tree = ''hello'',
                symbols = 5, diagnostics = {}, pending = False\<rparr>"
    by simp
  note rejected = applyEdit_failures
    [where e = sample_edit
       and st = "run_ops sample_pipeline Map.empty [Open ''a.lua'' ''hello'']"
       and u = "''a.lua''",
     THEN conjunct2, THEN mp, OF conjI, OF stored differs]
  show ?thesis
    using never stored stale unknown rejected by simp
qed

section \<open>Properties of the lexer\<close>

lemma recognised_SomeD:
  "recognised r rest = Some (k, n) \<Longrightarrow>
     0 < n \<and> n \<le> length rest \<and> k \<noteq> EndOfFile \<and> k \<noteq> Invalid"
  by (auto simp: recognised_def split: option.splits if_splits)

lemma lex_at_end:
  "length src \<le> off \<Longrightarrow> lex r src off = ([make_token src EndOfFile off off], [])"
  by (simp add: lex.simps [of r src off])

lemma lex_at_lexeme:
  "off < length src \<Longrightarrow> recognised r (drop off src) = Some (k, n) \<Longrightarrow>
     lex r src off = (make_token src k off (off + n) # fst (lex r src (off + n)),
                      snd (lex r src (off + n)))"
  by (simp add: lex.simps [of r src off] split: prod.splits)

lemma lex_at_unrecognised:
  "off < length src \<Longrightarrow> recognised r (drop off src) = None \<Longrightarrow>
     lex r src off = (make_token src Invalid off (off + 1) # fst (lex r src (off + 1)),
                      invalid_character off # snd (lex r src (off + 1)))"
  by (simp add: lex.simps [of r src off] split: prod.splits)

lemma span_text_make_token:
  "span_text src (make_token src k a b) = take (b - a) (drop a src)"
  by (simp add: span_text_def make_token_def)

lemma kind_make_token: "kind (make_token src k a b) = k"
  by (simp add: make_token_def)

lemma take_drop_step: "take n (drop off src) @ drop (off + n) src = drop off src"
  by (metis add.commute append_take_drop_id drop_drop)

lemma lex_roundtrip_from:
  "off \<le> length src \<Longrightarrow> concat (map (span_text src) (fst (lex r src off))) = drop off src"
proof (induction r src off rule: lex.induct)
  case (1 r src off)
  show ?case
  proof (cases "length src \<le> off")
    case True
    then show ?thesis
      by (simp add: lex_at_end span_text_make_token)
  next
    case False
    then have inside: "off < length src" by simp
    show ?thesis
    proof (cases "recognised r (drop off src)")
      case None
      from inside have le: "off + 1 \<le> length src" by simp
      from "1.IH"(1) [OF False None le]
      have ih: "concat (map (span_text src) (fst (lex r src (off + 1)))) = drop (off + 1) src" .
      show ?thesis
        unfolding lex_at_unrecognised [OF inside None]
        using ih take_drop_step [of 1 off src]
        by (simp add: span_text_make_token)
    next
      case (Some kn)
      obtain k n where kn: "kn = (k, n)" by (cases kn)
      with Some have rec: "recognised r (drop off src) = Some (k, n)" by simp
      from recognised_SomeD [OF rec] inside have le: "off + n \<le> length src" by auto
      from "1.IH"(2) [OF False Some kn [symmetric] le]
      have ih: "concat (map (span_text src) (fst (lex r src (off + n)))) = drop (off + n) src" .
      show ?thesis
        unfolding lex_at_lexeme [OF inside rec]
        using ih take_drop_step [of n off src]
        by (simp add: span_text_make_token)
    qed
  qed
qed

lemma lex_shape:
  "fst (lex r src off) \<noteq> []
   \<and> kind (last (fst (lex r src off))) = EndOfFile
   \<and> length (filter (\<lambda>t. kind t = EndOfFile) (fst (lex r src off))) = 1
   \<and> length (filter (\<lambda>t. kind t = Invalid) (fst (lex r src off))) = length (snd (lex r src off))"
proof (induction r src off rule: lex.induct)
  case (1 r src off)
  show ?case
  proof (cases "length src \<le> off")
    case True
    then show ?thesis
      by (simp add: lex_at_end kind_make_token)
  next
    case False
    then have inside: "off < length src" by simp
    show ?thesis
    proof (cases "recognised r (drop off src)")
      case None
      show ?thesis
        unfolding lex_at_unrecognised [OF inside None]
        using "1.IH"(1) [OF False None]
        by (simp add: kind_make_token)
    next
      case (Some kn)
      obtain k n where kn: "kn = (k, n)" by (cases kn)
      with Some have rec: "recognised r (drop off src) = Some (k, n)" by simp
      from recognised_SomeD [OF rec] have k: "k \<noteq> EndOfFile" "k \<noteq> Invalid" by simp_all
      show ?thesis
        unfolding lex_at_lexeme [OF inside rec]
        using "1.IH"(2) [OF False Some kn [symmetric]] k
        by (simp add: kind_make_token)
    qed
  qed
qed

text \<open>
  Claim C7. For every lexical grammar, every source text (any sequence of bytes) and every
  starting offset the lexer, a total function whose recursion terminates, returns a token
  list that is not empty, ends in an end-of-file token and holds exactly one token of that
  kind, and it returns as many diagnostics as tokens of kind \<open>Invalid\<close>. On the empty
  text the result is the end-of-file token alone. At an offset inside the text where the
  grammar recognises nothing, the result starts with a one-byte token of kind \<open>Invalid\<close>
  and its diagnostic and goes on with the lexing of the rest.
\<close>

theorem lexer_total_one_eof:
  "fst (lex r src off) \<noteq> []
   \<and> kind (last (fst (lex r src off))) = EndOfFile
   \<and> length (filter (\<lambda>t. kind t = EndOfFile) (fst (lex r src off))) = 1
   \<and> length (filter (\<lambda>t. kind t = Invalid) (fst (lex r src off))) = length (snd (lex r src off))
   \<and> lex r [] 0 = ([make_token [] EndOfFile 0 0], [])
   \<and> (off < length src \<and> recognised r (drop off src) = None \<longrightarrow>
        lex r src off = (make_token src Invalid off (off + 1) # fst (lex r src (off + 1)),
                         invalid_character off # snd (lex r src (off + 1))))"
  using lex_shape [of r src off] lex_at_end [of "[]" 0 r] lex_at_unrecognised [of off src r]
  by simp

theorem lexer_total_one_eof_witness:
  "4 < length ''ab  ?c''
   \<and> recognised sample_recogniser (drop 4 ''ab  ?c'') = None
   \<and> map kind (fst (lex sample_recogniser ''ab  ?c'' 4)) = [Invalid, Identifier, EndOfFile]
   \<and> snd (lex sample_recogniser ''ab  ?c'' 4) = [invalid_character 4]
   \<and> map kind (fst (lex sample_recogniser ''ab  ?c'' 0))
       = [Identifier, Whitespace, Invalid, Identifier, EndOfFile]"
proof -
  have len: "4 < length ''ab  ?c''" by simp
  have unrec: "recognised sample_recogniser (drop 4 ''ab  ?c'') = None"
    by (simp add: recognised_def sample_recogniser_def)
  have rest: "map kind (fst (lex sample_recogniser ''ab  ?c'' (4 + 1))) = [Identifier, EndOfFile]"
    by code_simp
  have rest_diags: "snd (lex sample_recogniser ''ab  ?c'' (4 + 1)) = []"
    by code_simp
  have whole: "map kind (fst (lex sample_recogniser ''ab  ?c'' 0))
       = [Identifier, Whitespace, Invalid, Identifier, EndOfFile]"
    by code_simp
  show ?thesis
    using len unrec rest rest_diags whole
      lexer_total_one_eof [of sample_recogniser "''ab  ?c''" 4]
    by (simp add: kind_make_token)
qed

text \<open>
  Claim C8. For every lexical grammar and every source text, the spans of the tokens that
  the lexer produces from offset 0, concatenated in order, are the source text.
\<close>

theorem lexer_roundtrip:
  "concat (map (span_text src) (fst (lex r src 0))) = src"
  using lex_roundtrip_from [of 0 src r] by simp

end
